theory Spec2Isabelle
  imports Main
begin

section \<open>The inline-edit state shared by the form fields\<close>

text \<open>
  Input, Textarea, Select and Multiselect carry the same props and data for inline
  editing, and the same three methods, word for word. A JavaScript value that may be
  \<open>null\<close> is an \<open>option\<close>, with \<open>None\<close> for \<open>null\<close>. The only event
  the components emit is \<open>update:modelValue\<close>; the record keeps the log of emissions
  in the order of the \<open>$emit\<close> calls.
\<close>

datatype 'v emit = Update_modelValue "'v option"

record 'v field =
  readOnly :: bool
  allowEdit :: bool
  modelValue :: "'v option"
  isEditing :: bool
  tmpVal :: "'v option"
  emitted :: "'v emit list"

definition toggleEdit :: "('v, 'z) field_scheme \<Rightarrow> ('v, 'z) field_scheme" where
  "toggleEdit s = s\<lparr>isEditing := \<not> isEditing s\<rparr>"

definition dismissEdit :: "('v, 'z) field_scheme \<Rightarrow> ('v, 'z) field_scheme" where
  "dismissEdit s = toggleEdit (s\<lparr>tmpVal := modelValue s\<rparr>)"

definition acceptEdit :: "('v, 'z) field_scheme \<Rightarrow> ('v, 'z) field_scheme" where
  "acceptEdit s = toggleEdit (s\<lparr>emitted := emitted s @ [Update_modelValue (tmpVal s)]\<rparr>)"

text \<open>Sequences of calls of the three methods.\<close>

datatype edit_call = Call_toggleEdit | Call_acceptEdit | Call_dismissEdit

fun call :: "('v, 'z) field_scheme \<Rightarrow> edit_call \<Rightarrow> ('v, 'z) field_scheme" where
  "call s Call_toggleEdit = toggleEdit s"
| "call s Call_acceptEdit = acceptEdit s"
| "call s Call_dismissEdit = dismissEdit s"

fun calls :: "('v, 'z) field_scheme \<Rightarrow> edit_call list \<Rightarrow> ('v, 'z) field_scheme" where
  "calls s [] = s"
| "calls s (c # cs) = calls (call s c) cs"

text \<open>
  The template of every field renders the edit controls only for \<open>allowEdit\<close> in the
  read-only branch: the Edit icon (\<open>@click="toggleEdit"\<close>) under \<open>v-if="!isEditing"\<close>,
  the Check icon (\<open>acceptEdit\<close>) and the X icon (\<open>dismissEdit\<close>) under \<open>v-else\<close>.
\<close>

datatype control = Edit_icon | Check_icon | X_icon

fun rendered :: "('v, 'z) field_scheme \<Rightarrow> control \<Rightarrow> bool" where
  "rendered s Edit_icon = (readOnly s \<and> allowEdit s \<and> \<not> isEditing s)"
| "rendered s Check_icon = (readOnly s \<and> allowEdit s \<and> isEditing s)"
| "rendered s X_icon = (readOnly s \<and> allowEdit s \<and> isEditing s)"

fun handler :: "control \<Rightarrow> edit_call" where
  "handler Edit_icon = Call_toggleEdit"
| "handler Check_icon = Call_acceptEdit"
| "handler X_icon = Call_dismissEdit"

definition click :: "('v, 'z) field_scheme \<Rightarrow> control \<Rightarrow> ('v, 'z) field_scheme" where
  "click s c = (if rendered s c then call s (handler c) else s)"

fun clicks :: "('v, 'z) field_scheme \<Rightarrow> control list \<Rightarrow> ('v, 'z) field_scheme" where
  "clicks s [] = s"
| "clicks s (c # cs) = clicks (click s c) cs"


section \<open>Input and Textarea\<close>

text \<open>
  Both components declare the watcher of \<open>modelValue\<close> with \<open>once: true\<close> and
  without \<open>immediate\<close>: Vue calls the handler at the first change of the prop and then
  removes the watcher. \<open>watching\<close> says whether the watcher is still registered. The
  handler defers its body with \<open>$nextTick\<close>; no other callback of the component can run
  between the two, so the update of the prop and the body are one step. In a field that
  is not read-only the body only dispatches a DOM \<open>input\<close> event on the widget and
  assigns nothing.
\<close>

record 'v Input = "'v field" +
  watching :: bool

definition Input_data :: "bool \<Rightarrow> bool \<Rightarrow> 'v option \<Rightarrow> 'v Input" where
  "Input_data ro ae mv =
     \<lparr>readOnly = ro, allowEdit = ae, modelValue = mv,
      isEditing = False, tmpVal = None, emitted = [], watching = True\<rparr>"

definition Input_watch_modelValue :: "'v Input \<Rightarrow> 'v Input" where
  "Input_watch_modelValue s = (if readOnly s then s\<lparr>tmpVal := modelValue s\<rparr> else s)"

definition Input_set_modelValue :: "'v Input \<Rightarrow> 'v option \<Rightarrow> 'v Input" where
  "Input_set_modelValue s v =
     (if v = modelValue s then s
      else if watching s then Input_watch_modelValue (s\<lparr>modelValue := v, watching := False\<rparr>)
      else s\<lparr>modelValue := v\<rparr>)"

record 'v Textarea = "'v field" +
  fullRead :: bool
  watching_ta :: bool

definition Textarea_data :: "bool \<Rightarrow> bool \<Rightarrow> 'v option \<Rightarrow> 'v Textarea" where
  "Textarea_data ro ae mv =
     \<lparr>readOnly = ro, allowEdit = ae, modelValue = mv,
      isEditing = False, tmpVal = None, emitted = [], fullRead = False, watching_ta = True\<rparr>"

definition Textarea_watch_modelValue :: "'v Textarea \<Rightarrow> 'v Textarea" where
  "Textarea_watch_modelValue s = (if readOnly s then s\<lparr>tmpVal := modelValue s\<rparr> else s)"

definition Textarea_set_modelValue :: "'v Textarea \<Rightarrow> 'v option \<Rightarrow> 'v Textarea" where
  "Textarea_set_modelValue s v =
     (if v = modelValue s then s
      else if watching_ta s
        then Textarea_watch_modelValue (s\<lparr>modelValue := v, watching_ta := False\<rparr>)
      else s\<lparr>modelValue := v\<rparr>)"

section \<open>Collaborators: the fetch helper and the toaster\<close>

text \<open>
  \<open>apiCall(endpoint, method, body, headers, queryParams)\<close> is imported from
  \<open>@/util/Fetch\<close>; the components pass at most the endpoint, the method and the query
  parameter \<open>search\<close>. The call returns a promise: it settles later, either with a list
  of options or with a rejection. \<open>toast(summary, message, severity, summaryPrefix, life)\<close>
  is the method the Toaster component exposes. Both are recorded in logs.
\<close>

datatype request = ApiCall (endpoint: "string option") (http_method: "string option")
  (search: "string option")

datatype 'a outcome = Rejected | Resolved 'a

datatype toast = Toast (summary: string) (message: string) (severity: string)
  (summaryPrefix: "string option") (life: nat)

definition couldNotLoad :: "string option \<Rightarrow> toast" where
  "couldNotLoad lbl =
     Toast ''errors.messages.couldNotLoad'' ''errors.messages.load'' ''error'' lbl 5000"

text \<open>
  An \<open>async\<close> function runs until its first \<open>await\<close>: \<open>Return s\<close> is the state
  when it returned without awaiting, \<open>Await s q\<close> the state in which it is suspended on
  the call \<open>q\<close> of \<open>apiCall\<close>. The rest of the function is a second definition that
  takes the outcome of the call and the state of the component at the moment the promise
  settles.
\<close>

datatype 's async = Return 's | Await 's request

text \<open>A string prop is truthy when it is given and not empty.\<close>

definition truthy :: "string option \<Rightarrow> bool" where
  "truthy u = (case u of None \<Rightarrow> False | Some str \<Rightarrow> str \<noteq> [])"

section \<open>The option source shared by Select and Multiselect\<close>

record ('v, 'o) option_source = "'v field" +
  url :: "string option"
  data :: "'o list option"
  label :: "string option"
  options :: "'o list"
  isLoading :: bool
  fetches :: "request list"
  toasts :: "toast list"

subsection \<open>Select\<close>

type_synonym ('v, 'o) Select = "('v, 'o) option_source"

definition Select_data ::
  "bool \<Rightarrow> bool \<Rightarrow> 'v option \<Rightarrow> string option \<Rightarrow> 'o list option \<Rightarrow> string option
    \<Rightarrow> ('v, 'o) Select" where
  "Select_data ro ae mv u d lbl =
     \<lparr>readOnly = ro, allowEdit = ae, modelValue = mv,
      isEditing = False, tmpVal = None, emitted = [],
      url = u, data = d, label = lbl,
      options = [], isLoading = (d = None), fetches = [], toasts = []\<rparr>"

text \<open>
  The watcher of \<open>modelValue\<close> is declared with \<open>immediate: true\<close> and never removed:
  Vue calls the handler once when the component is created and at every change of the prop.
\<close>

definition Select_watch_modelValue :: "('v, 'o) Select \<Rightarrow> 'v option \<Rightarrow> ('v, 'o) Select" where
  "Select_watch_modelValue s newValue = (if readOnly s then s\<lparr>tmpVal := newValue\<rparr> else s)"


definition Select_set_modelValue :: "('v, 'o) Select \<Rightarrow> 'v option \<Rightarrow> ('v, 'o) Select" where
  "Select_set_modelValue s v =
     (if v = modelValue s then s else Select_watch_modelValue (s\<lparr>modelValue := v\<rparr>) v)"






subsection \<open>Multiselect\<close>

datatype item = Item (item_id: int) (item_name: string)

record Multiselect = "(item list, item) option_source" +
  onDemandSearch :: bool
  filterValue :: string

definition Multiselect_data ::
  "bool \<Rightarrow> bool \<Rightarrow> item list option \<Rightarrow> string option \<Rightarrow> item list option \<Rightarrow> string option
    \<Rightarrow> bool \<Rightarrow> Multiselect" where
  "Multiselect_data ro ae mv u d lbl ods =
     \<lparr>readOnly = ro, allowEdit = ae, modelValue = mv,
      isEditing = False, tmpVal = None, emitted = [],
      url = u, data = d, label = lbl,
      options = [], isLoading = (d = None \<and> \<not> ods), fetches = [], toasts = [],
      onDemandSearch = ods, filterValue = []\<rparr>"

text \<open>The computed property \<open>value\<close>: its getter, its setter, and \<open>this.value || []\<close>.\<close>

definition value_get :: "Multiselect \<Rightarrow> item list option" where
  "value_get s = modelValue s"

definition value_set :: "Multiselect \<Rightarrow> item list option \<Rightarrow> Multiselect" where
  "value_set s newValue = s\<lparr>emitted := emitted s @ [Update_modelValue newValue]\<rparr>"

definition value_or_empty :: "Multiselect \<Rightarrow> item list" where
  "value_or_empty s = (case value_get s of None \<Rightarrow> [] | Some v \<Rightarrow> v)"

definition removeAll :: "Multiselect \<Rightarrow> Multiselect" where
  "removeAll s =
     (if readOnly s then s\<lparr>tmpVal := Some []\<rparr>
      else s\<lparr>emitted := emitted s @ [Update_modelValue (Some [])]\<rparr>)"

definition onFilter :: "Multiselect \<Rightarrow> string \<Rightarrow> Multiselect" where
  "onFilter s v = (if \<not> onDemandSearch s then s else s\<lparr>filterValue := v\<rparr>)"

text \<open>
  \<open>Array.prototype.findIndex\<close> returns the index of the first element that satisfies
  the predicate, and \<open>-1\<close> when there is none. \<open>Array.prototype.filter\<close> passes the
  element, its index and the array to the callback.
\<close>

fun findIndex :: "('a \<Rightarrow> bool) \<Rightarrow> 'a list \<Rightarrow> int" where
  "findIndex p [] = - 1"
| "findIndex p (x # xs) =
     (if p x then 0 else let i = findIndex p xs in if i < 0 then - 1 else i + 1)"

definition filter_indexed :: "('a \<Rightarrow> nat \<Rightarrow> 'a list \<Rightarrow> bool) \<Rightarrow> 'a list \<Rightarrow> 'a list" where
  "filter_indexed cb self =
     map fst (filter (\<lambda>(obj, index). cb obj index self) (zip self [0..<length self]))"

definition filter_out_duplicates :: "item list \<Rightarrow> item list" where
  "filter_out_duplicates combined =
     filter_indexed
       (\<lambda>obj index self. int index = findIndex (\<lambda>item. item_id item = item_id obj) self)
       combined"

text \<open>
  The de-duplication in the words of the specification: walk the list once and keep an
  option when no earlier option carries its identity key.
\<close>

fun first_per_id :: "int list \<Rightarrow> item list \<Rightarrow> item list" where
  "first_per_id seen [] = []"
| "first_per_id seen (x # xs) =
     (if item_id x \<in> set seen then first_per_id seen xs
      else x # first_per_id (seen @ [item_id x]) xs)"

text \<open>
  The watchers. \<open>modelValue\<close> and \<open>tmpVal\<close> are watched with \<open>immediate: true\<close>;
  the watcher of \<open>filterValue\<close> is an \<open>async\<close> function that awaits the search.
  A filter text is a list with one element for every unit that \<open>.length\<close> counts; the
  empty text is the one falsy text.
\<close>

definition Multiselect_watch_modelValue :: "Multiselect \<Rightarrow> item list option \<Rightarrow> Multiselect" where
  "Multiselect_watch_modelValue s newValue = (if readOnly s then s\<lparr>tmpVal := newValue\<rparr> else s)"

definition watch_tmpVal :: "Multiselect \<Rightarrow> item list option \<Rightarrow> Multiselect" where
  "watch_tmpVal s newValue =
     (case newValue of
        Some v \<Rightarrow> if readOnly s \<and> onDemandSearch s then s\<lparr>options := v\<rparr> else s
      | None \<Rightarrow> s)"

definition watch_filterValue :: "Multiselect \<Rightarrow> string \<Rightarrow> string \<Rightarrow> Multiselect async" where
  "watch_filterValue s new old =
     (if old \<noteq> [] \<and> length old \<ge> 2 \<and> length new < 2
        then Return (s\<lparr>options := value_or_empty s\<rparr>)
      else if new \<noteq> [] \<and> length new \<ge> 2
        then Await (s\<lparr>isLoading := True,
                       fetches := fetches s @ [ApiCall (url s) (Some ''GET'') (Some new)]\<rparr>)
               (ApiCall (url s) (Some ''GET'') (Some new))
      else Return s)"

definition watch_filterValue_resume :: "Multiselect \<Rightarrow> item list outcome \<Rightarrow> Multiselect" where
  "watch_filterValue_resume s r =
     (case r of
        Resolved fetchedOptions \<Rightarrow>
          (case value_get s of
             Some v \<Rightarrow> s\<lparr>options := filter_out_duplicates (fetchedOptions @ v), isLoading := False\<rparr>
           | None \<Rightarrow> s\<lparr>options := fetchedOptions, isLoading := False\<rparr>)
      | Rejected \<Rightarrow> s\<lparr>toasts := toasts s @ [couldNotLoad (label s)], isLoading := False\<rparr>)"

text \<open>The lifecycle hooks.\<close>

definition Multiselect_mounted :: "Multiselect \<Rightarrow> Multiselect async" where
  "Multiselect_mounted s0 =
     (let s = (if readOnly s0 then s0\<lparr>tmpVal := modelValue s0\<rparr> else s0) in
      if onDemandSearch s then Return (s\<lparr>options := value_or_empty s, isLoading := False\<rparr>)
      else case data s of
        Some d \<Rightarrow> Return (s\<lparr>options := d, isLoading := False\<rparr>)
      | None \<Rightarrow>
          if truthy (url s)
            then Await (s\<lparr>isLoading := True, fetches := fetches s @ [ApiCall (url s) None None]\<rparr>)
                   (ApiCall (url s) None None)
          else Return s)"

definition Multiselect_mounted_resume :: "Multiselect \<Rightarrow> item list outcome \<Rightarrow> Multiselect" where
  "Multiselect_mounted_resume s r =
     (case r of
        Resolved fetched \<Rightarrow> s\<lparr>options := fetched, isLoading := False\<rparr>
      | Rejected \<Rightarrow> s\<lparr>toasts := toasts s @ [couldNotLoad (label s)], isLoading := False\<rparr>)"

definition beforeUpdate :: "Multiselect \<Rightarrow> Multiselect" where
  "beforeUpdate s =
     (case value_get s of
        Some v \<Rightarrow>
          if data s = None \<and> isLoading s \<and> \<not> onDemandSearch s then s\<lparr>options := v\<rparr> else s
      | None \<Rightarrow> s)"

subsection \<open>The callbacks of a Multiselect in the order the runtime calls them\<close>

text \<open>
  JavaScript runs one callback at a time. A run of a mounted Multiselect is a list of
  events: the \<open>mounted\<close> hook, a filter event of the widget, a change of the prop
  \<open>modelValue\<close> by the parent, the \<open>beforeUpdate\<close> hook that precedes a re-render, and
  the settling of an outstanding \<open>apiCall\<close>. The outstanding calls are kept in the order
  they were issued, each with the function that awaits it; \<open>Settle i r\<close> settles the
  \<open>i\<close>-th of them with outcome \<open>r\<close>, so calls may settle in any order. A watcher runs
  when the watched value differs from the old one.
\<close>

datatype continuation = In_mounted | In_watch_filterValue

type_synonym runtime = "Multiselect \<times> (request \<times> continuation) list"

datatype event =
  Mounted
  | Filter string
  | Prop_modelValue "item list option"
  | BeforeUpdate
  | Settle nat "item list outcome"

fun suspend ::
  "continuation \<Rightarrow> (request \<times> continuation) list \<Rightarrow> Multiselect async \<Rightarrow> runtime" where
  "suspend k ks (Return s) = (s, ks)"
| "suspend k ks (Await s q) = (s, ks @ [(q, k)])"

fun resume :: "continuation \<Rightarrow> Multiselect \<Rightarrow> item list outcome \<Rightarrow> Multiselect" where
  "resume In_mounted s r = Multiselect_mounted_resume s r"
| "resume In_watch_filterValue s r = watch_filterValue_resume s r"

definition Multiselect_set_modelValue :: "Multiselect \<Rightarrow> item list option \<Rightarrow> Multiselect" where
  "Multiselect_set_modelValue s v =
     (if v = modelValue s then s
      else let s' = Multiselect_watch_modelValue (s\<lparr>modelValue := v\<rparr>) v
           in if tmpVal s' = tmpVal s then s' else watch_tmpVal s' (tmpVal s'))"

fun step :: "runtime \<Rightarrow> event \<Rightarrow> runtime" where
  "step (s, ks) Mounted = suspend In_mounted ks (Multiselect_mounted s)"
| "step (s, ks) (Filter v) =
     (let s' = onFilter s v in
      if filterValue s' = filterValue s then (s', ks)
      else suspend In_watch_filterValue ks (watch_filterValue s' (filterValue s') (filterValue s)))"
| "step (s, ks) (Prop_modelValue v) = (Multiselect_set_modelValue s v, ks)"
| "step (s, ks) BeforeUpdate = (beforeUpdate s, ks)"
| "step (s, ks) (Settle i r) =
     (if i < length ks then (resume (snd (ks ! i)) s r, take i ks @ drop (Suc i) ks)
      else (s, ks))"

fun run :: "runtime \<Rightarrow> event list \<Rightarrow> runtime" where
  "run st [] = st"
| "run st (e # es) = run (step st e) es"


section \<open>Properties of the inline-edit state\<close>

lemma emitted_toggleEdit: "emitted (toggleEdit s) = emitted s"
  by (simp add: toggleEdit_def)

lemma isEditing_call: "isEditing (call s c) = (\<not> isEditing s)"
  by (cases c) (simp_all add: toggleEdit_def acceptEdit_def dismissEdit_def)

lemma isEditing_calls: "isEditing (calls s cs) = (isEditing s \<noteq> odd (length cs))"
  by (induction cs arbitrary: s) (auto simp: isEditing_call)

section \<open>The de-duplication keeps the first option of every identity key\<close>

lemma findIndex_ge: "- 1 \<le> findIndex p xs"
  by (induction xs) (auto simp: Let_def)

lemma findIndex_lt: "findIndex p xs < int (length xs)"
  by (induction xs) (auto simp: Let_def)

lemma findIndex_none: "(findIndex p xs < 0) = (\<forall>x \<in> set xs. \<not> p x)"
  using findIndex_ge [of p] by (induction xs) (auto simp: Let_def)

lemma findIndex_append_hit: "\<exists>y \<in> set pre. p y \<Longrightarrow> findIndex p (pre @ ys) = findIndex p pre"
  by (induction pre) (auto simp: Let_def findIndex_none)

lemma findIndex_append_miss:
  "\<forall>y \<in> set pre. \<not> p y \<Longrightarrow> p x \<Longrightarrow> findIndex p (pre @ x # ys) = int (length pre)"
  by (induction pre) (auto simp: Let_def)

lemma findIndex_at:
  "p x \<Longrightarrow> (int (length pre) = findIndex p (pre @ x # ys)) = (\<forall>y \<in> set pre. \<not> p y)"
  using findIndex_lt [of p pre]
  by (cases "\<exists>y \<in> set pre. p y") (auto simp: findIndex_append_hit findIndex_append_miss)

lemma first_per_id_seen: "set a = set b \<Longrightarrow> first_per_id a xs = first_per_id b xs"
proof (induction xs arbitrary: a b)
  case Nil
  show ?case by simp
next
  case (Cons x xs)
  have "set (a @ [item_id x]) = set (b @ [item_id x])" using Cons.prems by simp
  then have "first_per_id (a @ [item_id x]) xs = first_per_id (b @ [item_id x]) xs"
    by (rule Cons.IH)
  moreover have "first_per_id a xs = first_per_id b xs" using Cons.prems by (rule Cons.IH)
  moreover have "(item_id x \<in> set a) = (item_id x \<in> set b)" using Cons.prems by simp
  ultimately show ?case by simp
qed

lemma no_earlier_id:
  "(\<forall>y \<in> set pre. item_id y \<noteq> item_id x) = (item_id x \<notin> set (map item_id pre))"
proof
  assume "\<forall>y \<in> set pre. item_id y \<noteq> item_id x"
  then show "item_id x \<notin> set (map item_id pre)" by (induction pre) simp_all
next
  assume "item_id x \<notin> set (map item_id pre)"
  then show "\<forall>y \<in> set pre. item_id y \<noteq> item_id x" by (induction pre) simp_all
qed

lemma filter_from:
  "map fst (filter (\<lambda>(obj, index). int index = findIndex (\<lambda>item. item_id item = item_id obj) (pre @ xs))
      (zip xs [length pre ..< length pre + length xs]))
   = first_per_id (map item_id pre) xs"
proof (induction xs arbitrary: pre)
  case Nil
  then show ?case by simp
next
  case (Cons x xs)
  define keep where
    "keep = (\<lambda>(obj, index). int index = findIndex (\<lambda>item. item_id item = item_id obj) (pre @ x # xs))"
  define later where "later = zip xs [Suc (length pre) ..< Suc (length pre) + length xs]"
  have "[length pre ..< length pre + Suc (length xs)]
      = length pre # [Suc (length pre) ..< length pre + Suc (length xs)]"
    by (rule upt_conv_Cons) simp
  then have range: "zip (x # xs) [length pre ..< length pre + length (x # xs)]
      = (x, length pre) # later"
    by (simp add: later_def)
  have "(int (length pre) = findIndex (\<lambda>item. item_id item = item_id x) (pre @ x # xs))
      = (\<forall>y \<in> set pre. item_id y \<noteq> item_id x)"
    by (rule findIndex_at) simp
  then have at: "keep (x, length pre) = (item_id x \<notin> set (map item_id pre))"
    by (simp add: keep_def no_earlier_id)
  have rest: "map fst (filter keep later) = first_per_id (map item_id pre @ [item_id x]) xs"
    using Cons.IH [of "pre @ [x]"] by (simp add: keep_def later_def)
  have "map fst (filter keep ((x, length pre) # later)) = first_per_id (map item_id pre) (x # xs)"
  proof (cases "item_id x \<in> set (map item_id pre)")
    case True
    then have "set (map item_id pre @ [item_id x]) = set (map item_id pre)" by auto
    then have "first_per_id (map item_id pre @ [item_id x]) xs = first_per_id (map item_id pre) xs"
      by (rule first_per_id_seen)
    with True at rest show ?thesis by simp
  next
    case False
    with at rest show ?thesis by simp
  qed
  then show ?case unfolding range [symmetric] keep_def .
qed

lemma filter_out_duplicates_eq: "filter_out_duplicates xs = first_per_id [] xs"
  using filter_from [of "[]" xs] by (simp add: filter_out_duplicates_def filter_indexed_def)

lemma first_per_id_ids: "set (map item_id (first_per_id seen xs)) = set (map item_id xs) - set seen"
  by (induction seen xs rule: first_per_id.induct) auto

lemma first_per_id_distinct: "distinct (map item_id (first_per_id seen xs))"
proof (induction seen xs rule: first_per_id.induct)
  case (1 seen)
  show ?case by simp
next
  case (2 seen x xs)
  have "item_id x \<notin> set (map item_id (first_per_id (seen @ [item_id x]) xs))"
    unfolding first_per_id_ids by simp
  with 2 show ?case by simp
qed

section \<open>The inline-edit state: claims\<close>

lemma emitted_call:
  "emitted (call s c) = (if c = Call_acceptEdit then emitted s @ [Update_modelValue (tmpVal s)] else emitted s)"
  by (cases c) (simp_all add: toggleEdit_def acceptEdit_def dismissEdit_def)

lemma length_emitted_calls:
  "length (emitted (calls s cs)) = length (emitted s) + length (filter (\<lambda>c. c = Call_acceptEdit) cs)"
  by (induction cs arbitrary: s) (simp_all add: emitted_call)

text \<open>
  Claim C1. In every state of a field, whatever calls led to it, \<open>dismissEdit\<close> leaves
  the log of emissions as it was, and \<open>acceptEdit\<close> appends exactly one
  \<open>update:modelValue\<close> whose payload is the draft \<open>tmpVal\<close> at the moment of the
  call. Along a sequence of calls the log therefore grows by one entry per \<open>acceptEdit\<close>
  and by nothing else.
\<close>

theorem dismiss_silent_accept_emits_draft:
  "emitted (dismissEdit s) = emitted s
   \<and> emitted (acceptEdit s) = emitted s @ [Update_modelValue (tmpVal s)]
   \<and> length (emitted (calls s cs))
       = length (emitted s) + length (filter (\<lambda>c. c = Call_acceptEdit) cs)"
  by (simp add: length_emitted_calls) (simp add: toggleEdit_def acceptEdit_def dismissEdit_def)

text \<open>
  Claim C3, as stated, fails: \<open>acceptEdit\<close> ends with \<open>toggleEdit\<close>, which negates
  \<open>isEditing\<close>. Called on a freshly created read-only Input, which is in Display mode,
  it leaves the field in Editing mode.
\<close>

theorem acceptEdit_in_Display_enters_Editing:
  "\<not> isEditing (Input_data True True (Some ''abc''))
   \<and> isEditing (acceptEdit (Input_data True True (Some ''abc'')))"
  by (simp add: Input_data_def acceptEdit_def toggleEdit_def)

text \<open>
  Claim C3, amended. \<open>isEditing\<close> is a boolean, so the mode is one of Display and
  Editing; every field starts in Display; each call of \<open>toggleEdit\<close>, \<open>acceptEdit\<close>
  or \<open>dismissEdit\<close> negates the mode, so along every sequence of calls the mode
  alternates strictly; \<open>acceptEdit\<close> called in Editing mode leads to Display; and the
  Check icon, the one control bound to \<open>acceptEdit\<close>, is rendered in Editing mode only,
  so a click on it always leads to Display.
\<close>

theorem edit_mode_alternates:
  "\<not> isEditing (Input_data ro ae mv)
   \<and> \<not> isEditing (Textarea_data ro ae mv)
   \<and> \<not> isEditing (Select_data ro ae mv' u d lbl)
   \<and> \<not> isEditing (Multiselect_data ro ae mv'' u d' lbl ods)
   \<and> isEditing (calls s cs) = (isEditing s \<noteq> odd (length cs))
   \<and> (isEditing s \<longrightarrow> \<not> isEditing (acceptEdit s))
   \<and> (rendered s Check_icon \<longrightarrow> \<not> isEditing (click s Check_icon))"
  by (simp add: isEditing_calls Input_data_def Textarea_data_def Select_data_def
      Multiselect_data_def click_def acceptEdit_def toggleEdit_def)

text \<open>
  Claim C3, amended, at a read-only Input with \<open>allowEdit\<close>: after the Edit icon the
  field is in Editing mode, the Check icon is rendered, and \<open>acceptEdit\<close> leads back to
  Display; three calls from the initial state end in Editing.
\<close>

theorem edit_mode_alternates_witness:
  "isEditing (toggleEdit (Input_data True True (Some ''abc'')))
   \<and> rendered (toggleEdit (Input_data True True (Some ''abc''))) Check_icon
   \<and> \<not> isEditing (acceptEdit (toggleEdit (Input_data True True (Some ''abc''))))
   \<and> \<not> isEditing (click (toggleEdit (Input_data True True (Some ''abc''))) Check_icon)
   \<and> isEditing (calls (Input_data True True (Some ''abc''))
        [Call_toggleEdit, Call_dismissEdit, Call_toggleEdit])"
  using edit_mode_alternates [of True True "Some ''abc''" "Some (1::int)" None "Some [1::int]" None
      "Some [Item 1 ''A'']" "Some [Item 1 ''A'']" False
      "toggleEdit (Input_data True True (Some ''abc''))" "[]"]
    edit_mode_alternates [of True True "Some ''abc''" "Some (1::int)" None "Some [1::int]" None
      "Some [Item 1 ''A'']" "Some [Item 1 ''A'']" False
      "Input_data True True (Some ''abc'')" "[Call_toggleEdit, Call_dismissEdit, Call_toggleEdit]"]
  by (simp add: Input_data_def toggleEdit_def)



text \<open>
  Claim C8 on Input and Textarea. A read-only field in Display mode with committed value
  \<open>v0\<close> receives the updates \<open>v1\<close> and \<open>v2\<close>. The first update refreshes the
  draft and removes the watcher (\<open>once: true\<close>); the second leaves the draft at
  \<open>v1\<close>, and a begin-edit then starts from \<open>v1\<close> although the committed value is
  \<open>v2\<close>.
\<close>

theorem once_watcher_misses_second_update:
  "tmpVal (Input_set_modelValue (Input_data True True (Some ''v0'')) (Some ''v1'')) = Some ''v1''
   \<and> modelValue (Input_set_modelValue (Input_set_modelValue
        (Input_data True True (Some ''v0'')) (Some ''v1'')) (Some ''v2'')) = Some ''v2''
   \<and> tmpVal (Input_set_modelValue (Input_set_modelValue
        (Input_data True True (Some ''v0'')) (Some ''v1'')) (Some ''v2'')) = Some ''v1''
   \<and> \<not> isEditing (Input_set_modelValue (Input_set_modelValue
        (Input_data True True (Some ''v0'')) (Some ''v1'')) (Some ''v2''))
   \<and> tmpVal (toggleEdit (Input_set_modelValue (Input_set_modelValue
        (Input_data True True (Some ''v0'')) (Some ''v1'')) (Some ''v2''))) = Some ''v1''
   \<and> tmpVal (Textarea_set_modelValue (Textarea_set_modelValue
        (Textarea_data True True (Some ''v0'')) (Some ''v1'')) (Some ''v2'')) = Some ''v1''"
  by (simp add: Input_data_def Input_set_modelValue_def Input_watch_modelValue_def
      Textarea_data_def Textarea_set_modelValue_def Textarea_watch_modelValue_def toggleEdit_def)

text \<open>
  Select and Multiselect do what claim C8 says: their watcher is never removed, and every
  change of the committed value of a read-only field is copied to the draft.
\<close>

lemma Select_mirrors_every_update:
  "readOnly s \<Longrightarrow> v \<noteq> modelValue s \<Longrightarrow>
   tmpVal (Select_set_modelValue s v) = v \<and> modelValue (Select_set_modelValue s v) = v"
  by (simp add: Select_set_modelValue_def Select_watch_modelValue_def)

lemma Multiselect_mirrors_every_update:
  "readOnly s \<Longrightarrow> v \<noteq> modelValue s \<Longrightarrow>
   tmpVal (Multiselect_set_modelValue s v) = v \<and> modelValue (Multiselect_set_modelValue s v) = v"
  by (simp add: Multiselect_set_modelValue_def Multiselect_watch_modelValue_def watch_tmpVal_def
      Let_def split: option.splits)

text \<open>
  After \<open>removeAll\<close> has assigned a new draft, the watcher of \<open>tmpVal\<close> runs; in a
  read-only Multiselect with on-demand search it empties the options as well. It emits
  nothing.
\<close>

lemma removeAll_then_watch_tmpVal:
  "readOnly s \<Longrightarrow> onDemandSearch s \<Longrightarrow>
   options (watch_tmpVal (removeAll s) (tmpVal (removeAll s))) = []
   \<and> emitted (watch_tmpVal (removeAll s) (tmpVal (removeAll s))) = emitted s"
  by (simp add: removeAll_def watch_tmpVal_def)

text \<open>
  Claim C10. In a read-only Multiselect \<open>removeAll\<close> assigns the empty list to the
  draft and nothing else: nothing is emitted and the committed value is unchanged.
  Otherwise it emits exactly one \<open>update:modelValue\<close> carrying the empty list and
  leaves the draft as it was.
\<close>

theorem removeAll_draft_or_emit:
  "(readOnly s \<longrightarrow>
      removeAll s = s\<lparr>tmpVal := Some []\<rparr>
      \<and> tmpVal (removeAll s) = Some []
      \<and> emitted (removeAll s) = emitted s
      \<and> modelValue (removeAll s) = modelValue s)
   \<and> (\<not> readOnly s \<longrightarrow>
      removeAll s = s\<lparr>emitted := emitted s @ [Update_modelValue (Some [])]\<rparr>
      \<and> emitted (removeAll s) = emitted s @ [Update_modelValue (Some [])]
      \<and> tmpVal (removeAll s) = tmpVal s)"
  by (simp add: removeAll_def)

text \<open>
  Claim C10 at two Multiselects with one selected item, one read-only and one not.
\<close>

theorem removeAll_draft_or_emit_witness:
  "readOnly (Multiselect_data True True (Some [Item 1 ''A'']) None (Some [Item 1 ''A'']) None False)
   \<and> tmpVal (removeAll (Multiselect_data True True (Some [Item 1 ''A'']) None
        (Some [Item 1 ''A'']) None False)) = Some []
   \<and> emitted (removeAll (Multiselect_data True True (Some [Item 1 ''A'']) None
        (Some [Item 1 ''A'']) None False)) = []
   \<and> \<not> readOnly (Multiselect_data False False (Some [Item 1 ''A'']) None
        (Some [Item 1 ''A'']) None False)
   \<and> emitted (removeAll (Multiselect_data False False (Some [Item 1 ''A'']) None
        (Some [Item 1 ''A'']) None False)) = [Update_modelValue (Some [])]
   \<and> tmpVal (removeAll (Multiselect_data False False (Some [Item 1 ''A'']) None
        (Some [Item 1 ''A'']) None False)) = None"
  using
    removeAll_draft_or_emit [of "Multiselect_data True True (Some [Item 1 ''A'']) None
        (Some [Item 1 ''A'']) None False"]
    removeAll_draft_or_emit [of "Multiselect_data False False (Some [Item 1 ''A'']) None
        (Some [Item 1 ''A'']) None False"]
  by (simp add: Multiselect_data_def)

section \<open>On-demand search: claims\<close>

lemma first_per_id_append:
  "first_per_id seen (xs @ ys) = first_per_id seen xs @ first_per_id (seen @ map item_id xs) ys"
proof (induction xs arbitrary: seen)
  case Nil
  show ?case by simp
next
  case (Cons x xs)
  show ?case
  proof (cases "item_id x \<in> set seen")
    case True
    then have "set (seen @ map item_id (x # xs)) = set (seen @ map item_id xs)" by auto
    then have "first_per_id (seen @ map item_id (x # xs)) ys = first_per_id (seen @ map item_id xs) ys"
      by (rule first_per_id_seen)
    with True Cons.IH [of seen] show ?thesis by simp
  next
    case False
    with Cons.IH [of "seen @ [item_id x]"] show ?thesis by simp
  qed
qed

lemma exactly_once:
  "distinct (map f xs) \<Longrightarrow> k \<in> set (map f xs) \<Longrightarrow> length (filter (\<lambda>z. f z = k) xs) = 1"
proof (induction xs)
  case Nil
  then show ?case by simp
next
  case (Cons y ys)
  show ?case
  proof (cases "f y = k")
    case True
    with Cons.prems have "k \<notin> f ` set ys" by simp
    then have "\<forall>z \<in> set ys. f z \<noteq> k" by (metis imageI)
    then have "filter (\<lambda>z. f z = k) ys = []" by (simp add: filter_empty_conv)
    with True show ?thesis by simp
  next
    case False
    with Cons show ?thesis by simp
  qed
qed

lemma step_Filter_search:
  assumes "onDemandSearch s" and "2 \<le> length new" and "new \<noteq> filterValue s"
  shows "step (s, ks) (Filter new) =
    (s\<lparr>filterValue := new, isLoading := True,
        fetches := fetches s @ [ApiCall (url s) (Some ''GET'') (Some new)]\<rparr>,
     ks @ [(ApiCall (url s) (Some ''GET'') (Some new), In_watch_filterValue)])"
proof -
  from assms have "new \<noteq> []" by auto
  with assms show ?thesis
    by (simp add: onFilter_def watch_filterValue_def Let_def)
qed

text \<open>
  Claim C2. When a search settles successfully while a selection exists (\<open>this.value\<close>
  is an array), the options become the fetch result followed by the selection, with the
  first option of every \<open>id\<close> kept: the list the source computes with \<open>filter\<close> and
  \<open>findIndex\<close> is the list \<open>first_per_id\<close> describes. The fetch result comes first,
  then the selected items whose \<open>id\<close> the fetch result lacks; no \<open>id\<close> occurs twice,
  and every fetched or selected \<open>id\<close> occurs exactly once. \<open>isLoading\<close> is false
  afterwards. The last conjunct is the whole flow: in on-demand mode a filter text of
  length at least 2 issues the search, and its success yields these options.
\<close>

theorem search_result_merged_with_selection:
  assumes "value_get s = Some selected"
  shows "options (watch_filterValue_resume s (Resolved fetched)) = first_per_id [] (fetched @ selected)
    \<and> first_per_id [] (fetched @ selected)
        = first_per_id [] fetched @ first_per_id (map item_id fetched) selected
    \<and> distinct (map item_id (options (watch_filterValue_resume s (Resolved fetched))))
    \<and> (\<forall>x \<in> set (fetched @ selected).
          length (filter (\<lambda>z. item_id z = item_id x)
            (options (watch_filterValue_resume s (Resolved fetched)))) = 1)
    \<and> \<not> isLoading (watch_filterValue_resume s (Resolved fetched))
    \<and> (onDemandSearch s \<and> 2 \<le> length new \<and> new \<noteq> filterValue s \<longrightarrow>
          options (fst (run (s, []) [Filter new, Settle 0 (Resolved fetched)]))
            = first_per_id [] (fetched @ selected)
          \<and> fetches (fst (run (s, []) [Filter new, Settle 0 (Resolved fetched)]))
            = fetches s @ [ApiCall (url s) (Some ''GET'') (Some new)])"
proof -
  let ?opts = "options (watch_filterValue_resume s (Resolved fetched))"
  have opts: "?opts = first_per_id [] (fetched @ selected)"
    using assms by (simp add: watch_filterValue_resume_def filter_out_duplicates_eq)
  have order: "first_per_id [] (fetched @ selected)
      = first_per_id [] fetched @ first_per_id (map item_id fetched) selected"
    using first_per_id_append [of "[]" fetched selected] by simp
  have dist: "distinct (map item_id ?opts)"
    unfolding opts by (rule first_per_id_distinct)
  have ids: "set (map item_id ?opts) = set (map item_id (fetched @ selected))"
    unfolding opts first_per_id_ids by simp
  have once: "\<forall>x \<in> set (fetched @ selected). length (filter (\<lambda>z. item_id z = item_id x) ?opts) = 1"
  proof
    fix x assume "x \<in> set (fetched @ selected)"
    then have "item_id x \<in> set (map item_id (fetched @ selected))"
      unfolding set_map by (rule imageI)
    then have "item_id x \<in> set (map item_id ?opts)" unfolding ids .
    with dist show "length (filter (\<lambda>z. item_id z = item_id x) ?opts) = 1" by (rule exactly_once)
  qed
  have load: "\<not> isLoading (watch_filterValue_resume s (Resolved fetched))"
    using assms by (simp add: watch_filterValue_resume_def)
  have flow: "onDemandSearch s \<and> 2 \<le> length new \<and> new \<noteq> filterValue s \<longrightarrow>
          options (fst (run (s, []) [Filter new, Settle 0 (Resolved fetched)]))
            = first_per_id [] (fetched @ selected)
          \<and> fetches (fst (run (s, []) [Filter new, Settle 0 (Resolved fetched)]))
            = fetches s @ [ApiCall (url s) (Some ''GET'') (Some new)]"
  proof (intro impI, elim conjE)
    assume "onDemandSearch s" and "2 \<le> length new" and "new \<noteq> filterValue s"
    then have first: "step (s, []) (Filter new) =
        (s\<lparr>filterValue := new, isLoading := True,
            fetches := fetches s @ [ApiCall (url s) (Some ''GET'') (Some new)]\<rparr>,
         [] @ [(ApiCall (url s) (Some ''GET'') (Some new), In_watch_filterValue)])"
      by (rule step_Filter_search)
    from assms show "options (fst (run (s, []) [Filter new, Settle 0 (Resolved fetched)]))
            = first_per_id [] (fetched @ selected)
          \<and> fetches (fst (run (s, []) [Filter new, Settle 0 (Resolved fetched)]))
            = fetches s @ [ApiCall (url s) (Some ''GET'') (Some new)]"
      unfolding run.simps first
      by (simp add: watch_filterValue_resume_def value_get_def filter_out_duplicates_eq)
  qed
  from opts order dist once load flow show ?thesis by simp
qed

text \<open>
  Claim C2 at the example of the specification: the item 1 is selected, the text \<open>xy\<close>
  is typed and the search returns the items 2 and 1; the options are the items 2 and 1.
\<close>

theorem search_result_merged_with_selection_witness:
  "value_get (Multiselect_data False False (Some [Item 1 ''A'']) (Some ''/tags'') None None True)
     = Some [Item 1 ''A'']
   \<and> options (fst (run
        (Multiselect_data False False (Some [Item 1 ''A'']) (Some ''/tags'') None None True, [])
        [Filter ''xy'', Settle 0 (Resolved [Item 2 ''B'', Item 1 ''A''])]))
     = [Item 2 ''B'', Item 1 ''A'']"
  using search_result_merged_with_selection
    [of "Multiselect_data False False (Some [Item 1 ''A'']) (Some ''/tags'') None None True"
        "[Item 1 ''A'']" "[Item 2 ''B'', Item 1 ''A'']" "''xy''"]
  by (simp add: Multiselect_data_def value_get_def)

text \<open>
  Claim C5. In on-demand mode, when the filter text goes from a text of length at least 2
  to a text of length below 2, the watcher assigns \<open>this.value || []\<close> to the options,
  that is the selected items (nothing when the committed value is \<open>null\<close>), and
  returns: no call is issued, no call becomes outstanding, \<open>isLoading\<close> is unchanged.
\<close>

theorem short_filter_resets_options:
  assumes "onDemandSearch s" and "2 \<le> length (filterValue s)" and "length new < 2"
  shows "options (fst (step (s, ks) (Filter new))) = (case modelValue s of None \<Rightarrow> [] | Some v \<Rightarrow> v)
    \<and> fetches (fst (step (s, ks) (Filter new))) = fetches s
    \<and> snd (step (s, ks) (Filter new)) = ks
    \<and> filterValue (fst (step (s, ks) (Filter new))) = new
    \<and> isLoading (fst (step (s, ks) (Filter new))) = isLoading s
    \<and> watch_filterValue (s\<lparr>filterValue := new\<rparr>) new (filterValue s)
        = Return (s\<lparr>filterValue := new, options := value_or_empty s\<rparr>)"
proof -
  from assms have "new \<noteq> filterValue s" and "filterValue s \<noteq> []" by auto
  with assms show ?thesis
    by (simp add: onFilter_def watch_filterValue_def value_or_empty_def value_get_def)
qed

text \<open>
  Claim C5 after a search: the item 1 is selected, the text \<open>xy\<close> has brought the items
  2 and 1, and the text \<open>x\<close> resets the options to the item 1; the one call of the run
  is the search for \<open>xy\<close>.
\<close>

theorem short_filter_resets_options_witness:
  "options (fst (run
      (Multiselect_data False False (Some [Item 1 ''A'']) (Some ''/tags'') None None True, [])
      [Mounted, Filter ''xy'', Settle 0 (Resolved [Item 2 ''B'', Item 1 ''A'']), Filter ''x'']))
    = [Item 1 ''A'']
   \<and> fetches (fst (run
      (Multiselect_data False False (Some [Item 1 ''A'']) (Some ''/tags'') None None True, [])
      [Mounted, Filter ''xy'', Settle 0 (Resolved [Item 2 ''B'', Item 1 ''A'']), Filter ''x'']))
    = [ApiCall (Some ''/tags'') (Some ''GET'') (Some ''xy'')]"
  using short_filter_resets_options
    [of "fst (run
      (Multiselect_data False False (Some [Item 1 ''A'']) (Some ''/tags'') None None True, [])
      [Mounted, Filter ''xy'', Settle 0 (Resolved [Item 2 ''B'', Item 1 ''A''])])" "''x''" "[]"]
  by (simp add: Multiselect_data_def Multiselect_mounted_def onFilter_def watch_filterValue_def
      watch_filterValue_resume_def value_or_empty_def value_get_def filter_out_duplicates_eq)

text \<open>
  Claim C6, as stated, fails: when a search is rejected the watcher raises the toast and
  clears \<open>isLoading\<close>, and does not assign the options. In the first run the item 1 is
  selected, the search for \<open>xy\<close> has brought the items 2 and 1, and the search for
  \<open>xyz\<close> fails: the options still hold the item 2, where the merge of an empty fetch
  result with the selection is the item 1 alone. In the second run the parent selects the
  item 1 after the mount and the first search fails: the options stay empty and lack the
  selected item.
\<close>

theorem failed_search_keeps_options:
  "options (fst (run
      (Multiselect_data False False (Some [Item 1 ''A'']) (Some ''/tags'') None None True, [])
      [Mounted, Filter ''xy'', Settle 0 (Resolved [Item 2 ''B'', Item 1 ''A'']),
       Filter ''xyz'', Settle 0 Rejected]))
    = [Item 2 ''B'', Item 1 ''A'']
   \<and> options (fst (run
      (Multiselect_data False False (Some []) (Some ''/tags'') None None True, [])
      [Mounted, Prop_modelValue (Some [Item 1 ''A'']), Filter ''xy'', Settle 0 Rejected]))
    = []
   \<and> value_get (fst (run
      (Multiselect_data False False (Some []) (Some ''/tags'') None None True, [])
      [Mounted, Prop_modelValue (Some [Item 1 ''A'']), Filter ''xy'', Settle 0 Rejected]))
    = Some [Item 1 ''A'']
   \<and> filter_out_duplicates ([] @ [Item 1 ''A'']) = [Item 1 ''A'']"
  by (simp add: Multiselect_data_def Multiselect_mounted_def onFilter_def watch_filterValue_def
      watch_filterValue_resume_def value_or_empty_def value_get_def filter_out_duplicates_eq
      Multiselect_set_modelValue_def Multiselect_watch_modelValue_def watch_tmpVal_def)

text \<open>
  Claim C6, amended. When a search is rejected, \<open>isLoading\<close> becomes false, exactly one
  load failure is reported through the toaster, no call is issued, and the options are
  left exactly as they were when the rejection arrived.
\<close>

theorem failed_search_leaves_options:
  "watch_filterValue_resume s Rejected
     = s\<lparr>toasts := toasts s @ [couldNotLoad (label s)], isLoading := False\<rparr>
   \<and> options (watch_filterValue_resume s Rejected) = options s
   \<and> \<not> isLoading (watch_filterValue_resume s Rejected)
   \<and> toasts (watch_filterValue_resume s Rejected) = toasts s @ [couldNotLoad (label s)]
   \<and> fetches (watch_filterValue_resume s Rejected) = fetches s
   \<and> step (s, [(q, In_watch_filterValue)]) (Settle 0 Rejected)
       = (watch_filterValue_resume s Rejected, [])"
  by (simp add: watch_filterValue_resume_def)

text \<open>
  Claim C9, as stated, fails: nothing ties a response to the filter text it was requested
  for. The search for \<open>ab\<close> is issued, then the search for \<open>cd\<close>; the second one
  settles first, the first one last. The filter text is \<open>cd\<close> and the options are the
  hit of the search for \<open>ab\<close>.
\<close>

theorem stale_search_overwrites_options:
  "options (fst (run
      (Multiselect_data False False (Some []) (Some ''/tags'') None None True, [])
      [Mounted, Filter ''ab'', Filter ''cd'',
       Settle 1 (Resolved [Item 2 ''hit for cd'']),
       Settle 0 (Resolved [Item 1 ''hit for ab''])]))
    = [Item 1 ''hit for ab'']
   \<and> filterValue (fst (run
      (Multiselect_data False False (Some []) (Some ''/tags'') None None True, [])
      [Mounted, Filter ''ab'', Filter ''cd'',
       Settle 1 (Resolved [Item 2 ''hit for cd'']),
       Settle 0 (Resolved [Item 1 ''hit for ab''])]))
    = ''cd''
   \<and> snd (run
      (Multiselect_data False False (Some []) (Some ''/tags'') None None True, [])
      [Mounted, Filter ''ab'', Filter ''cd''])
    = [(ApiCall (Some ''/tags'') (Some ''GET'') (Some ''ab''), In_watch_filterValue),
       (ApiCall (Some ''/tags'') (Some ''GET'') (Some ''cd''), In_watch_filterValue)]"
  by (simp add: Multiselect_data_def Multiselect_mounted_def onFilter_def watch_filterValue_def
      watch_filterValue_resume_def value_or_empty_def value_get_def filter_out_duplicates_eq)

text \<open>
  Claim C9, amended. Every search that settles successfully assigns the options from its
  own result and the selection at that moment, whatever the options and the filter text
  are: of two outstanding searches the one that settles last determines the options.
  When the searches settle in the order they were issued the options reflect the newer
  search; when the older one settles last they reflect the older one.
\<close>

theorem last_settled_search_wins:
  "options (watch_filterValue_resume s (Resolved f))
     = (case modelValue s of Some v \<Rightarrow> first_per_id [] (f @ v) | None \<Rightarrow> f)
   \<and> options (fst (run (s, [(qa, In_watch_filterValue), (qb, In_watch_filterValue)])
        [Settle 0 (Resolved a), Settle 0 (Resolved b)]))
     = options (watch_filterValue_resume s (Resolved b))
   \<and> options (fst (run (s, [(qa, In_watch_filterValue), (qb, In_watch_filterValue)])
        [Settle 1 (Resolved b), Settle 0 (Resolved a)]))
     = options (watch_filterValue_resume s (Resolved a))"
  by (simp add: watch_filterValue_resume_def value_get_def filter_out_duplicates_eq
      split: option.split)

section \<open>Loading at mount: claims\<close>











end
